theory Spec2Isabelle
  imports Complex_Main "HOL-Library.AList" "HOL-Library.Char_ord"
    "HOL-Library.List_Lexorder" "HOL-Library.Multiset"
begin

section \<open>JavaScript numbers\<close>

text \<open>
  A JavaScript number is an IEEE double: a finite number, an infinity or \<open>NaN\<close>. A
  finite number is given by its real value. The sign of zero is not kept (a quotient by
  zero takes its sign from the dividend).

  Two families of operators follow. The operators \<open>jadd\<close>, \<open>jsub\<close>, \<open>jmul\<close>, \<open>jdiv\<close>
  compute the exact result on finite numbers and follow the standard on the other
  values. The operators \<open>dadd\<close>, \<open>dmul\<close>, \<open>ddiv\<close> of the next section round that
  result to the nearest double, as the machine does. The region aggregation is written
  with the rounding operators, because what is stated about it depends on rounding.
  The score and the statistics are written with the exact operators: what is stated
  about them (the formula, the range of the clamp, the non-finite result of a division
  by zero, the point of the series that is read) is the same with and without
  rounding.
\<close>

datatype jsnum = Fin real | PInf | NInf | NaN

fun jneg :: "jsnum \<Rightarrow> jsnum" where
  "jneg (Fin a) = Fin (- a)"
| "jneg PInf = NInf"
| "jneg NInf = PInf"
| "jneg NaN = NaN"

fun jadd :: "jsnum \<Rightarrow> jsnum \<Rightarrow> jsnum" where
  "jadd NaN _ = NaN"
| "jadd _ NaN = NaN"
| "jadd PInf NInf = NaN"
| "jadd NInf PInf = NaN"
| "jadd PInf _ = PInf"
| "jadd _ PInf = PInf"
| "jadd NInf _ = NInf"
| "jadd _ NInf = NInf"
| "jadd (Fin a) (Fin b) = Fin (a + b)"

definition jsub :: "jsnum \<Rightarrow> jsnum \<Rightarrow> jsnum" where
  "jsub a b = jadd a (jneg b)"

definition signed_inf :: "real \<Rightarrow> jsnum" where
  "signed_inf s = (if s = 0 then NaN else if 0 < s then PInf else NInf)"

fun jmul :: "jsnum \<Rightarrow> jsnum \<Rightarrow> jsnum" where
  "jmul NaN _ = NaN"
| "jmul _ NaN = NaN"
| "jmul (Fin a) (Fin b) = Fin (a * b)"
| "jmul (Fin a) PInf = signed_inf a"
| "jmul (Fin a) NInf = signed_inf (- a)"
| "jmul PInf (Fin b) = signed_inf b"
| "jmul NInf (Fin b) = signed_inf (- b)"
| "jmul PInf PInf = PInf"
| "jmul NInf NInf = PInf"
| "jmul PInf NInf = NInf"
| "jmul NInf PInf = NInf"

fun jdiv :: "jsnum \<Rightarrow> jsnum \<Rightarrow> jsnum" where
  "jdiv NaN _ = NaN"
| "jdiv _ NaN = NaN"
| "jdiv (Fin a) (Fin b) = (if b = 0 then signed_inf a else Fin (a / b))"
| "jdiv (Fin a) PInf = Fin 0"
| "jdiv (Fin a) NInf = Fin 0"
| "jdiv PInf (Fin b) = (if 0 \<le> b then PInf else NInf)"
| "jdiv NInf (Fin b) = (if 0 \<le> b then NInf else PInf)"
| "jdiv _ _ = NaN"

text \<open>The relational operators: every comparison with \<open>NaN\<close> is false.\<close>

fun jlt :: "jsnum \<Rightarrow> jsnum \<Rightarrow> bool" where
  "jlt (Fin a) (Fin b) = (a < b)"
| "jlt (Fin a) PInf = True"
| "jlt NInf (Fin b) = True"
| "jlt NInf PInf = True"
| "jlt _ _ = False"

fun jle :: "jsnum \<Rightarrow> jsnum \<Rightarrow> bool" where
  "jle NaN _ = False"
| "jle _ NaN = False"
| "jle a b = (\<not> jlt b a)"

definition jgt :: "jsnum \<Rightarrow> jsnum \<Rightarrow> bool" where
  "jgt a b = jlt b a"

definition jge :: "jsnum \<Rightarrow> jsnum \<Rightarrow> bool" where
  "jge a b = jle b a"

text \<open>\<^verbatim>\<open>Math.max\<close> and \<^verbatim>\<open>Math.min\<close> of two arguments: \<open>NaN\<close> if either is.\<close>

fun jmax :: "jsnum \<Rightarrow> jsnum \<Rightarrow> jsnum" where
  "jmax NaN _ = NaN"
| "jmax _ NaN = NaN"
| "jmax a b = (if jlt a b then b else a)"

fun jmin :: "jsnum \<Rightarrow> jsnum \<Rightarrow> jsnum" where
  "jmin NaN _ = NaN"
| "jmin _ NaN = NaN"
| "jmin a b = (if jlt b a then b else a)"

text \<open>\<^verbatim>\<open>Math.sqrt\<close>.\<close>

fun jsqrt :: "jsnum \<Rightarrow> jsnum" where
  "jsqrt (Fin a) = (if a < 0 then NaN else Fin (sqrt a))"
| "jsqrt PInf = PInf"
| "jsqrt _ = NaN"

text \<open>\<^verbatim>\<open>Math.pow(x, 2)\<close>, \<^verbatim>\<open>Math.round(x)\<close>, and \<^verbatim>\<open>x || 0\<close> on a number.\<close>

fun jpow2 :: "jsnum \<Rightarrow> jsnum" where
  "jpow2 (Fin a) = Fin (a ^ 2)"
| "jpow2 PInf = PInf"
| "jpow2 NInf = PInf"
| "jpow2 NaN = NaN"

fun jround :: "jsnum \<Rightarrow> jsnum" where
  "jround (Fin a) = Fin (of_int \<lfloor>a + 1 / 2\<rfloor>)"
| "jround x = x"

fun orZero :: "jsnum \<Rightarrow> jsnum" where
  "orZero NaN = Fin 0"
| "orZero x = x"

section \<open>Rounding to the nearest double\<close>

text \<open>
  The binary64 format: 53 significant bits, exponents of the unit in the last place
  from \<open>-1074\<close> (subnormal numbers) upwards, and overflow to an infinity at \<open>2 ^ 1024\<close>.
  \<open>rne\<close> rounds a real to the nearest integer, a tie to the even one. \<open>expo x\<close> is the
  exponent of the unit in the last place at the magnitude of \<open>x\<close>, and \<open>rnd x\<close> is
  \<open>x\<close> rounded to a multiple of that unit. \<open>dbl x\<close> is the double the machine
  produces for the exact result \<open>x\<close>.
\<close>

definition rne :: "real \<Rightarrow> int" where
  "rne m = (let f = \<lfloor>m\<rfloor>; d = m - of_int f
            in if d < 1 / 2 then f else if 1 / 2 < d then f + 1
               else if even f then f else f + 1)"

definition expo :: "real \<Rightarrow> int" where
  "expo x = max \<lfloor>log 2 \<bar>x\<bar>\<rfloor> (- 1022) - 52"

definition rnd :: "real \<Rightarrow> real" where
  "rnd x = sgn x * (of_int (rne (\<bar>x\<bar> / 2 powi expo x)) * 2 powi expo x)"

definition dbl :: "real \<Rightarrow> jsnum" where
  "dbl x = (let y = rnd x
            in if 2 ^ 1024 \<le> \<bar>y\<bar> then (if 0 < y then PInf else NInf) else Fin y)"

fun rounded :: "jsnum \<Rightarrow> jsnum" where
  "rounded (Fin x) = dbl x"
| "rounded x = x"

definition dadd :: "jsnum \<Rightarrow> jsnum \<Rightarrow> jsnum" where
  "dadd a b = rounded (jadd a b)"

definition dmul :: "jsnum \<Rightarrow> jsnum \<Rightarrow> jsnum" where
  "dmul a b = rounded (jmul a b)"

definition ddiv :: "jsnum \<Rightarrow> jsnum \<Rightarrow> jsnum" where
  "ddiv a b = rounded (jdiv a b)"

text \<open>
  The values a JavaScript number can have: a finite one is a fixed point of the
  rounding, below the overflow threshold. \<open>fin\<close> reads the value of a finite number.
\<close>

fun isDouble :: "jsnum \<Rightarrow> bool" where
  "isDouble (Fin x) = (rnd x = x \<and> \<bar>x\<bar> < 2 ^ 1024)"
| "isDouble _ = True"



section \<open>Scoring\<close>

text \<open>
  \<^verbatim>\<open>calculateInvestmentScore(priceChange, volatility, momentum)\<close>. The value of the
  local variable \<^verbatim>\<open>score\<close> when the \<^verbatim>\<open>return\<close> is reached is \<open>scoreBeforeClamp\<close>; the
  function returns it clamped.
\<close>

definition scoreBeforeClamp :: "jsnum \<Rightarrow> jsnum \<Rightarrow> jsnum \<Rightarrow> jsnum" where
  "scoreBeforeClamp priceChange volatility momentum =
    (let score = Fin 50;
         score = (if jge volatility (Fin 20) then jadd score (Fin 30)
                  else jadd score (jmul (jdiv volatility (Fin 20)) (Fin 30)));
         score = jadd score (jmin (jmul momentum (Fin 3)) (Fin 30));
         score = (if jge priceChange (Fin 40) then jadd score (Fin 30)
                  else if jgt priceChange (Fin 0)
                       then jadd score (jmul (jdiv priceChange (Fin 40)) (Fin 30))
                       else score);
         score = (if jgt momentum (Fin 10) \<and> jgt priceChange (Fin 30) \<and> jgt volatility (Fin 15)
                  then jadd score (Fin 10) else score)
     in score)"

definition calculateInvestmentScore :: "jsnum \<Rightarrow> jsnum \<Rightarrow> jsnum \<Rightarrow> jsnum" where
  "calculateInvestmentScore priceChange volatility momentum =
    jmax (Fin 0) (jmin (Fin 100) (scoreBeforeClamp priceChange volatility momentum))"

text \<open>
  The reference formula, written from the words of the specification (section 4.5, steps
  1 to 6) over the reals, for comparison with the function above.
\<close>

definition spec_volatility_term :: "real \<Rightarrow> real" where
  "spec_volatility_term v = (if v \<ge> 20 then 30 else (v / 20) * 30)"

definition spec_momentum_term :: "real \<Rightarrow> real" where
  "spec_momentum_term m = min (m * 3) 30"

definition spec_price_term :: "real \<Rightarrow> real" where
  "spec_price_term p = (if p \<ge> 40 then 30 else if p > 0 then (p / 40) * 30 else 0)"

definition spec_bonus :: "real \<Rightarrow> real \<Rightarrow> real \<Rightarrow> real" where
  "spec_bonus p v m = (if m > 10 \<and> p > 30 \<and> v > 15 then 10 else 0)"

definition spec_sum :: "real \<Rightarrow> real \<Rightarrow> real \<Rightarrow> real" where
  "spec_sum p v m =
     50 + spec_volatility_term v + spec_momentum_term m + spec_price_term p + spec_bonus p v m"

definition spec_score :: "real \<Rightarrow> real \<Rightarrow> real \<Rightarrow> real" where
  "spec_score p v m = max 0 (min 100 (spec_sum p v m))"

section \<open>Market history entries and region aggregation\<close>

text \<open>
  One day of market history as the ESI source delivers it and as the aggregation emits it:
  \<^verbatim>\<open>{date, average, highest, lowest, volume, order_count}\<close>. The date is the key string
  (an ISO day such as \<^verbatim>\<open>2025-01-31\<close>); the other fields are JavaScript numbers.
\<close>

record entry =
  date :: string
  average :: jsnum
  highest :: jsnum
  lowest :: jsnum
  volume :: jsnum
  order_count :: jsnum

text \<open>The accumulator object kept per item and date by \<^verbatim>\<open>aggregateRegionData\<close>.\<close>

record accum =
  acc_date :: string
  totalVolume :: jsnum
  weightedAvgSum :: jsnum
  acc_highest :: jsnum
  acc_lowest :: jsnum
  orderCount :: jsnum

text \<open>
  A JavaScript object is an association list of its own properties; \<open>map_of\<close> reads a
  property, and \<open>AList.update\<close> assigns one: it overwrites the property in place when
  it exists and appends it otherwise, which is the order of \<^verbatim>\<open>Object.keys\<close> for keys
  that are not integers, such as dates. The input lists regions, items and entries in
  the order the loops visit them. For objects keyed by an item identifier the order of
  the keys is not observed: the dates of an item are sorted before use, and a series is
  read off the result by its item (\<open>map_of\<close>). Properties inherited from
  \<^verbatim>\<open>Object.prototype\<close> are not modelled (no date or identifier is named like one).
\<close>

type_synonym 'v obj = "(string \<times> 'v) list"
type_synonym typeId = nat
type_synonym regionId = nat

definition newAccum :: "string \<Rightarrow> accum" where
  "newAccum d = \<lparr>acc_date = d, totalVolume = Fin 0, weightedAvgSum = Fin 0,
                 acc_highest = NInf, acc_lowest = PInf, orderCount = Fin 0\<rparr>"

text \<open>
  The five updates of the accumulator for one entry. \<^verbatim>\<open>+=\<close> and \<^verbatim>\<open>*\<close> round their
  results; \<^verbatim>\<open>Math.max\<close> and \<^verbatim>\<open>Math.min\<close> return one of their arguments.
\<close>

definition addEntry :: "accum \<Rightarrow> entry \<Rightarrow> accum" where
  "addEntry agg e = agg\<lparr>
     totalVolume := dadd (totalVolume agg) (volume e),
     weightedAvgSum := dadd (weightedAvgSum agg) (dmul (average e) (volume e)),
     acc_highest := jmax (acc_highest agg) (highest e),
     acc_lowest := jmin (acc_lowest agg) (lowest e),
     orderCount := dadd (orderCount agg) (order_count e)\<rparr>"

text \<open>
  The body of the innermost loop, on the object \<^verbatim>\<open>byTypeAndDate[typeId]\<close>: create the
  accumulator of the entry's date if there is none, then add the entry to it.
\<close>

definition accumulateEntry :: "accum obj \<Rightarrow> entry \<Rightarrow> accum obj" where
  "accumulateEntry byDate e =
    (let d = date e;
         byDate' = (case map_of byDate d of
                      None \<Rightarrow> AList.update d (newAccum d) byDate
                    | Some _ \<Rightarrow> byDate)
     in case map_of byDate' d of
          Some agg \<Rightarrow> AList.update d (addEntry agg e) byDate'
        | None \<Rightarrow> byDate')"

text \<open>
  The loop over the items of one region: \<^verbatim>\<open>byTypeAndDate[typeId]\<close> is created empty if
  missing, and the item's entries are accumulated into it.
\<close>

definition accumulateType ::
  "(typeId \<times> accum obj) list \<Rightarrow> typeId \<times> entry list \<Rightarrow> (typeId \<times> accum obj) list" where
  "accumulateType byTypeAndDate item =
    (let typeId = fst item;
         byType' = (case map_of byTypeAndDate typeId of
                      None \<Rightarrow> AList.update typeId [] byTypeAndDate
                    | Some _ \<Rightarrow> byTypeAndDate)
     in case map_of byType' typeId of
          Some byDate \<Rightarrow> AList.update typeId (foldl accumulateEntry byDate (snd item)) byType'
        | None \<Rightarrow> byType')"

definition accumulateRegion ::
  "(typeId \<times> accum obj) list \<Rightarrow> regionId \<times> (typeId \<times> entry list) list
     \<Rightarrow> (typeId \<times> accum obj) list" where
  "accumulateRegion byTypeAndDate region = foldl accumulateType byTypeAndDate (snd region)"

definition byTypeAndDate ::
  "(regionId \<times> (typeId \<times> entry list) list) list \<Rightarrow> (typeId \<times> accum obj) list" where
  "byTypeAndDate historyData = foldl accumulateRegion [] historyData"

text \<open>The entry emitted for one accumulator; the quotient is rounded.\<close>

definition mergedEntry :: "accum \<Rightarrow> entry" where
  "mergedEntry agg = \<lparr>date = acc_date agg,
     average = (if jgt (totalVolume agg) (Fin 0)
                then ddiv (weightedAvgSum agg) (totalVolume agg) else Fin 0),
     highest = acc_highest agg, lowest = acc_lowest agg,
     volume = totalVolume agg, order_count = orderCount agg\<rparr>"

text \<open>
  \<^verbatim>\<open>Object.keys(byTypeAndDate[typeId]).sort()\<close> orders the date strings by code unit,
  which is the lexicographic order of \<open>string\<close>; each date is then looked up again
  (the lookup cannot miss, the keys being those of the same object).
\<close>

definition mergedSeries :: "accum obj \<Rightarrow> entry list" where
  "mergedSeries byDate =
     List.map_filter (\<lambda>d. map_option mergedEntry (map_of byDate d)) (sort (map fst byDate))"

definition aggregateRegionData ::
  "(regionId \<times> (typeId \<times> entry list) list) list \<Rightarrow> (typeId \<times> entry list) list" where
  "aggregateRegionData historyData =
     map (\<lambda>(typeId, byDate). (typeId, mergedSeries byDate)) (byTypeAndDate historyData)"

text \<open>
  Notions used to state what the aggregation computes. \<open>regionalEntries h t\<close> lists, in
  the order the loops visit them, the entries of item \<open>t\<close> in all regions; \<open>typeIds h\<close>
  are the items that occur in some region; \<open>inputDates h t\<close> is the union, over the
  regions, of the dates in the series of item \<open>t\<close>; \<open>contributing h t d\<close> are the
  entries of item \<open>t\<close> dated \<open>d\<close>; \<open>accumOf d es\<close> is the accumulator of date \<open>d\<close>
  after the entries \<open>es\<close>.
\<close>

definition regionalEntries ::
  "(regionId \<times> (typeId \<times> entry list) list) list \<Rightarrow> typeId \<Rightarrow> entry list" where
  "regionalEntries h t =
     concat (map snd (filter (\<lambda>item. fst item = t) (concat (map snd h))))"

definition typeIds :: "(regionId \<times> (typeId \<times> entry list) list) list \<Rightarrow> typeId set" where
  "typeIds h = fst ` set (concat (map snd h))"

definition inputDates ::
  "(regionId \<times> (typeId \<times> entry list) list) list \<Rightarrow> typeId \<Rightarrow> string set" where
  "inputDates h t =
     (\<Union>region \<in> set h. \<Union>item \<in> set (snd region).
        if fst item = t then date ` set (snd item) else {})"


definition accumOf :: "string \<Rightarrow> entry list \<Rightarrow> accum" where
  "accumOf d es = foldl addEntry (newAccum d) (filter (\<lambda>e. date e = d) es)"

text \<open>
  A normalized region, as the data model has it: the region object has one series per
  item, a series has one entry per date, and the numbers of an entry are doubles.
\<close>

definition doubleEntry :: "entry \<Rightarrow> bool" where
  "doubleEntry e = (isDouble (average e) \<and> isDouble (highest e) \<and> isDouble (lowest e)
                    \<and> isDouble (volume e) \<and> isDouble (order_count e))"

definition normalizedSeries :: "entry list \<Rightarrow> bool" where
  "normalizedSeries es = (distinct (map date es) \<and> list_all doubleEntry es)"

definition normalizedRegion :: "(typeId \<times> entry list) list \<Rightarrow> bool" where
  "normalizedRegion items =
     (distinct (map fst items) \<and> list_all (\<lambda>item. normalizedSeries (snd item)) items)"




section \<open>Statistics\<close>

text \<open>\<^verbatim>\<open>calculatePriceChange(history)\<close>.\<close>

definition calculatePriceChange :: "entry list \<Rightarrow> jsnum" where
  "calculatePriceChange history =
    (if length history < 2 then Fin 0
     else let firstPrice = average (history ! 0);
              lastPrice = average (history ! (length history - 1))
          in jmul (jdiv (jsub lastPrice firstPrice) firstPrice) (Fin 100))"

text \<open>\<^verbatim>\<open>calculateVolatility(history)\<close>; \<open>foldl\<close> is \<^verbatim>\<open>reduce\<close>.\<close>

definition calculateVolatility :: "entry list \<Rightarrow> jsnum" where
  "calculateVolatility history =
    (if length history < 2 then Fin 0
     else let prices = map average history;
              mean = jdiv (foldl jadd (Fin 0) prices) (Fin (real (length prices)));
              squaredDiffs = map (\<lambda>price. jpow2 (jsub price mean)) prices;
              variance = jdiv (foldl jadd (Fin 0) squaredDiffs) (Fin (real (length prices)));
              stdDev = jsqrt variance
          in jmul (jdiv stdDev mean) (Fin 100))"

text \<open>
  \<^verbatim>\<open>calculateMomentum(history)\<close>; with at least 60 points, \<^verbatim>\<open>slice(-30)\<close> is the last
  30 and \<^verbatim>\<open>slice(-60, -30)\<close> the 30 before them.
\<close>

definition calculateMomentum :: "entry list \<Rightarrow> jsnum" where
  "calculateMomentum history =
    (if length history < 60 then Fin 0
     else let n = length history;
              recent30 = drop (n - 30) history;
              previous30 = drop (n - 60) (take (n - 30) history);
              recent30Avg = jdiv (foldl (\<lambda>sum day. jadd sum (average day)) (Fin 0) recent30)
                              (Fin (real (length recent30)));
              previous30Avg = jdiv (foldl (\<lambda>sum day. jadd sum (average day)) (Fin 0) previous30)
                              (Fin (real (length previous30)))
          in jmul (jdiv (jsub recent30Avg previous30Avg) previous30Avg) (Fin 100))"

text \<open>\<^verbatim>\<open>categorizeVolume(volume)\<close> of the multi-region economy.\<close>

definition categorizeVolume :: "jsnum \<Rightarrow> string" where
  "categorizeVolume v =
    (if jge v (Fin 10000) then ''Very High''
     else if jge v (Fin 1000) then ''High''
     else if jge v (Fin 100) then ''Medium''
     else if jge v (Fin 10) then ''Low''
     else ''Very Low'')"

record itemInfo =
  item_id :: nat
  item_name :: string

text \<open>
  The object \<^verbatim>\<open>analyzeItem\<close> returns. The source renders the percentages and the score
  with \<^verbatim>\<open>toFixed\<close>; the record keeps the numbers that are rendered.
\<close>

record analysis =
  res_id :: nat
  res_name :: string
  res_currentPrice :: jsnum
  res_priceChange :: jsnum
  res_priceChange7d :: jsnum
  res_priceChange30d :: jsnum
  res_volatility :: jsnum
  res_momentum :: jsnum
  res_volume :: jsnum
  res_volumeCategory :: string
  res_investmentScore :: jsnum
  res_dataPoints :: nat
  res_riskLevel :: string

text \<open>
  \<^verbatim>\<open>analyzeItem(history, itemInfo)\<close>; \<open>None\<close> is \<^verbatim>\<open>null\<close>. The source first sorts the
  history by \<^verbatim>\<open>new Date(a.date) - new Date(b.date)\<close>; for ISO day strings that order is
  the order of the strings, and the sort is stable, so it is \<open>sort_key date\<close>.
\<close>

definition analyzeItem :: "entry list \<Rightarrow> itemInfo \<Rightarrow> analysis option" where
  "analyzeItem history0 info =
    (if length history0 = 0 then None
     else let history = sort_key date history0;
              priceChange = calculatePriceChange history;
              volatility = calculateVolatility history;
              momentum = calculateMomentum history;
              currentPrice = average (history ! (length history - 1));
              currentVolume = volume (history ! (length history - 1));
              priceChange7d =
                (if length history \<ge> 7
                 then let price7dAgo = average (history ! (length history - 7))
                      in if jgt price7dAgo (Fin 0)
                         then jmul (jdiv (jsub currentPrice price7dAgo) price7dAgo) (Fin 100)
                         else Fin 0
                 else Fin 0);
              priceChange30d =
                (if length history \<ge> 30
                 then let price30dAgo = average (history ! (length history - 30))
                      in if jgt price30dAgo (Fin 0)
                         then jmul (jdiv (jsub currentPrice price30dAgo) price30dAgo) (Fin 100)
                         else Fin 0
                 else Fin 0);
              investmentScore = calculateInvestmentScore priceChange volatility momentum;
              riskLevel = (if jge volatility (Fin 15) then ''high'' else ''low'')
          in Some \<lparr>res_id = item_id info, res_name = item_name info,
                   res_currentPrice = jround currentPrice,
                   res_priceChange = priceChange,
                   res_priceChange7d = priceChange7d,
                   res_priceChange30d = priceChange30d,
                   res_volatility = volatility,
                   res_momentum = momentum,
                   res_volume = currentVolume,
                   res_volumeCategory = categorizeVolume (orZero currentVolume),
                   res_investmentScore = investmentScore,
                   res_dataPoints = length history,
                   res_riskLevel = riskLevel\<rparr>)"

section \<open>Incremental synchronisation\<close>

text \<open>
  Step 1 of \<^verbatim>\<open>main\<close> refreshes the saved history from the ESI source, one request per
  (region, item) pair, with the \<^verbatim>\<open>ETag\<close> and \<^verbatim>\<open>Last-Modified\<close> values of the previous
  run as conditional headers. The snapshot files hold \<^verbatim>\<open>{regionId: {typeId: ...}}\<close>
  objects, read here as nested maps.
\<close>

record cacheToken =
  etag :: "string option"
  lastModified :: "string option"

text \<open>
  What \<^verbatim>\<open>await fetch(url, {headers})\<close> and \<^verbatim>\<open>await response.json()\<close> can do: the
  request throws, or a response arrives with its status, its body (\<open>None\<close> when
  \<^verbatim>\<open>response.json()\<close> throws) and its \<^verbatim>\<open>etag\<close> and \<^verbatim>\<open>last-modified\<close> headers
  (\<open>None\<close> for \<^verbatim>\<open>null\<close>).
\<close>

datatype fetchResult =
    NetworkError
  | Response nat "entry list option" "string option" "string option"

fun statusOf :: "fetchResult \<Rightarrow> nat option" where
  "statusOf NetworkError = None"
| "statusOf (Response status body etagHeader lastModifiedHeader) = Some status"

text \<open>
  The source outside the program: the answer to the request with a given number, for a
  region and an item, sent with the cached token of the pair.
\<close>

type_synonym fetcher = "nat \<Rightarrow> regionId \<Rightarrow> typeId \<Rightarrow> cacheToken option \<Rightarrow> fetchResult"

record syncState =
  historyData :: "regionId \<rightharpoonup> (typeId \<rightharpoonup> entry list)"
  etagData :: "regionId \<rightharpoonup> (typeId \<rightharpoonup> cacheToken)"
  fetched :: nat
  skipped :: nat
  errors :: nat
  requestCount :: nat

definition NUMBER_OF_ITEMS_TO_PROCESS :: nat where
  "NUMBER_OF_ITEMS_TO_PROCESS = 10000"

text \<open>\<^verbatim>\<open>m[r]?.[t]\<close> and \<^verbatim>\<open>m[r][t] = v\<close> on a nested object.\<close>

definition lookup2 :: "('a \<rightharpoonup> ('b \<rightharpoonup> 'c)) \<Rightarrow> 'a \<Rightarrow> 'b \<Rightarrow> 'c option" where
  "lookup2 m r t = (case m r of None \<Rightarrow> None | Some inner \<Rightarrow> inner t)"

definition assign2 ::
  "('a \<rightharpoonup> ('b \<rightharpoonup> 'c)) \<Rightarrow> 'a \<Rightarrow> 'b \<Rightarrow> 'c \<Rightarrow> ('a \<rightharpoonup> ('b \<rightharpoonup> 'c))" where
  "assign2 m r t v =
     m(r \<mapsto> (case m r of None \<Rightarrow> Map.empty | Some inner \<Rightarrow> inner)(t \<mapsto> v))"

text \<open>A header value is truthy when it is a non-empty string.\<close>

definition truthy :: "string option \<Rightarrow> bool" where
  "truthy h = (case h of None \<Rightarrow> False | Some s \<Rightarrow> s \<noteq> [])"

definition headerField :: "string option \<Rightarrow> string option" where
  "headerField h = (if truthy h then h else None)"

text \<open>The head of the region loop creates the region's objects when they are missing.\<close>

definition initRegion :: "regionId \<Rightarrow> syncState \<Rightarrow> syncState" where
  "initRegion regionId st =
    (let st = (if historyData st regionId = None
               then st\<lparr>historyData := (historyData st)(regionId \<mapsto> Map.empty)\<rparr> else st);
         st = (if etagData st regionId = None
               then st\<lparr>etagData := (etagData st)(regionId \<mapsto> Map.empty)\<rparr> else st)
     in st)"

text \<open>
  The body of the item loop after the limit check: count the request, send it, and
  branch on the answer in the order of the source (304, then \<^verbatim>\<open>response.ok\<close>, then 404,
  then any other status; an exception counts as an error).
\<close>

definition refreshPair :: "fetcher \<Rightarrow> regionId \<Rightarrow> typeId \<Rightarrow> syncState \<Rightarrow> syncState" where
  "refreshPair fetch regionId typeId st0 =
    (let st = st0\<lparr>requestCount := requestCount st0 + 1\<rparr>;
         cached = lookup2 (etagData st) regionId typeId
     in case fetch (requestCount st) regionId typeId cached of
          NetworkError \<Rightarrow> st\<lparr>errors := errors st + 1\<rparr>
        | Response status body etagHeader lastModifiedHeader \<Rightarrow>
            if status = 304 then st\<lparr>skipped := skipped st + 1\<rparr>
            else if 200 \<le> status \<and> status \<le> 299 then
              (case body of
                 None \<Rightarrow> st\<lparr>errors := errors st + 1\<rparr>
               | Some history \<Rightarrow>
                   let st = st\<lparr>historyData := assign2 (historyData st) regionId typeId history,
                               fetched := fetched st + 1\<rparr>
                   in if truthy etagHeader \<or> truthy lastModifiedHeader
                      then st\<lparr>etagData := assign2 (etagData st) regionId typeId
                             \<lparr>etag = headerField etagHeader,
                              lastModified = headerField lastModifiedHeader\<rparr>\<rparr>
                      else st)
            else if status = 404 then st
            else st\<lparr>errors := errors st + 1\<rparr>)"

fun itemLoop ::
  "fetcher \<Rightarrow> nat \<Rightarrow> regionId \<Rightarrow> typeId list \<Rightarrow> syncState \<Rightarrow> syncState" where
  "itemLoop fetch limit regionId [] st = st"
| "itemLoop fetch limit regionId (typeId # rest) st =
     (if requestCount st \<ge> limit then st
      else itemLoop fetch limit regionId rest (refreshPair fetch regionId typeId st))"

fun regionLoop ::
  "fetcher \<Rightarrow> nat \<Rightarrow> typeId list \<Rightarrow> regionId list \<Rightarrow> syncState \<Rightarrow> syncState" where
  "regionLoop fetch limit items [] st = st"
| "regionLoop fetch limit items (regionId # rest) st =
     (if requestCount st \<ge> limit then st
      else regionLoop fetch limit items rest
             (itemLoop fetch limit regionId items (initRegion regionId st)))"

text \<open>
  The whole of step 1, from the snapshot read at the start to the state whose
  \<open>historyData\<close> and \<open>etagData\<close> are written back. \<open>regions\<close> and \<open>items\<close> are the
  identifiers in the order of \<^verbatim>\<open>regionNames\<close> and \<^verbatim>\<open>itemNames\<close>.
\<close>

definition populateHistory ::
  "fetcher \<Rightarrow> regionId list \<Rightarrow> typeId list
     \<Rightarrow> (regionId \<rightharpoonup> (typeId \<rightharpoonup> entry list)) \<Rightarrow> (regionId \<rightharpoonup> (typeId \<rightharpoonup> cacheToken))
     \<Rightarrow> syncState" where
  "populateHistory fetch regions items history0 etags0 =
     regionLoop fetch NUMBER_OF_ITEMS_TO_PROCESS items regions
       \<lparr>historyData = history0, etagData = etags0, fetched = 0, skipped = 0, errors = 0,
        requestCount = 0\<rparr>"

definition storedSeries :: "syncState \<Rightarrow> regionId \<Rightarrow> typeId \<Rightarrow> entry list option" where
  "storedSeries st r t = lookup2 (historyData st) r t"

definition storedToken :: "syncState \<Rightarrow> regionId \<Rightarrow> typeId \<Rightarrow> cacheToken option" where
  "storedToken st r t = lookup2 (etagData st) r t"

text \<open>The answers on which the source stores a new series.\<close>

fun replaces :: "fetchResult \<Rightarrow> bool" where
  "replaces NetworkError = False"
| "replaces (Response status body etagHeader lastModifiedHeader) =
     (status \<noteq> 304 \<and> 200 \<le> status \<and> status \<le> 299 \<and> body \<noteq> None)"

section \<open>Series normalizer of the single-region economy\<close>

text \<open>
  \<^verbatim>\<open>parseInt(string)\<close> without a radix, after the language standard: skip leading white
  space, read a sign, switch to radix 16 after \<^verbatim>\<open>0x\<close> or \<^verbatim>\<open>0X\<close>, and take the
  longest prefix of digits of the radix; the result is \<open>NaN\<close> when that prefix is
  empty. A \<open>char\<close> is a byte, so the white space is the ASCII part of the standard's.
\<close>

definition isStrWhiteSpace :: "char \<Rightarrow> bool" where
  "isStrWhiteSpace c = (c \<in> set [CHR 0x20, CHR 0x09, CHR 0x0A, CHR 0x0B, CHR 0x0C, CHR 0x0D])"

text \<open>The value of a digit or letter as a digit, and 36 for any other character.\<close>

definition digitValue :: "char \<Rightarrow> nat" where
  "digitValue c =
    (let n = (of_char c :: nat)
     in if 48 \<le> n \<and> n \<le> 57 then n - 48
        else if 97 \<le> n \<and> n \<le> 122 then n - 87
        else if 65 \<le> n \<and> n \<le> 90 then n - 55
        else 36)"

definition parseInt :: "string \<Rightarrow> jsnum" where
  "parseInt inputString =
    (let S = dropWhile isStrWhiteSpace inputString;
         sign = (if S \<noteq> [] \<and> hd S = CHR ''-'' then - 1 else 1);
         S = (if S \<noteq> [] \<and> (hd S = CHR ''+'' \<or> hd S = CHR ''-'') then tl S else S);
         hex = (take 2 S = ''0x'' \<or> take 2 S = ''0X'');
         R = (if hex then 16 else 10);
         S = (if hex then drop 2 S else S);
         Z = takeWhile (\<lambda>c. digitValue c < R) S
     in if Z = [] then NaN
        else Fin (sign * real (foldl (\<lambda>acc c. acc * R + digitValue c) 0 Z)))"

record pricePoint =
  timestamp :: jsnum
  price :: real

text \<open>
  \<^verbatim>\<open>Array.prototype.sort(compare)\<close>: \<open>x\<close> goes after \<open>y\<close> when \<open>compare x y > 0\<close>; a
  \<open>NaN\<close> from the comparator counts as 0. The sort is stable, so for a consistent
  comparator its result is that of the insertion sort below. For an inconsistent one
  (a \<open>NaN\<close> timestamp compares as equal to everything) the standard fixes only that the
  result is a permutation of the input, and nothing below relies on more.
\<close>

fun insertBy :: "('a \<Rightarrow> 'a \<Rightarrow> jsnum) \<Rightarrow> 'a \<Rightarrow> 'a list \<Rightarrow> 'a list" where
  "insertBy cmp x [] = [x]"
| "insertBy cmp x (y # ys) =
     (if jgt (cmp x y) (Fin 0) then y # insertBy cmp x ys else x # y # ys)"

definition sortBy :: "('a \<Rightarrow> 'a \<Rightarrow> jsnum) \<Rightarrow> 'a list \<Rightarrow> 'a list" where
  "sortBy cmp xs = foldr (insertBy cmp) xs []"

text \<open>
  \<^verbatim>\<open>convertToArray(priceData)\<close>; the argument lists \<^verbatim>\<open>Object.entries(priceData)\<close>, and
  \<open>pricePointOf\<close> is the function mapped over it.
\<close>

definition pricePointOf :: "string \<times> real \<Rightarrow> pricePoint" where
  "pricePointOf kv = \<lparr>timestamp = parseInt (fst kv), price = snd kv\<rparr>"

definition convertToArray :: "(string \<times> real) list \<Rightarrow> pricePoint list" where
  "convertToArray priceData =
     sortBy (\<lambda>a b. jsub (timestamp a) (timestamp b)) (map pricePointOf priceData)"

section \<open>Example inputs\<close>

definition day :: "string \<Rightarrow> real \<Rightarrow> real \<Rightarrow> entry" where
  "day d a v = \<lparr>date = d, average = Fin a, highest = Fin (a + 5), lowest = Fin (a - 5),
               volume = Fin v, order_count = Fin 2\<rparr>"

text \<open>Two regions; item 34 is traded in both, with no volume on its first day.\<close>

definition forge_region :: "(typeId \<times> entry list) list" where
  "forge_region = [(34, [day ''2025-01-02'' 100 10, day ''2025-01-01'' 90 0]),
                   (35, [day ''2025-01-01'' 7 3])]"

definition domain_region :: "(typeId \<times> entry list) list" where
  "domain_region = [(34, [day ''2025-01-02'' 130 20, day ''2025-01-03'' 140 5])]"

definition example_history :: "(regionId \<times> (typeId \<times> entry list) list) list" where
  "example_history = [(10000002, forge_region), (10000043, domain_region)]"

definition example_merged :: "entry list" where
  "example_merged =
     [\<lparr>date = ''2025-01-01'', average = Fin 0, highest = Fin 95, lowest = Fin 85,
       volume = Fin 0, order_count = Fin 2\<rparr>,
      \<lparr>date = ''2025-01-02'', average = Fin 120, highest = Fin 135, lowest = Fin 95,
       volume = Fin 30, order_count = Fin 4\<rparr>,
      \<lparr>date = ''2025-01-03'', average = Fin 140, highest = Fin 145, lowest = Fin 135,
       volume = Fin 5, order_count = Fin 2\<rparr>]"

text \<open>Eight consecutive days of one item.\<close>

definition week_series :: "entry list" where
  "week_series =
     [day ''2025-01-01'' 100 10, day ''2025-01-02'' 200 10, day ''2025-01-03'' 210 10,
      day ''2025-01-04'' 220 10, day ''2025-01-05'' 230 10, day ''2025-01-06'' 240 10,
      day ''2025-01-07'' 250 10, day ''2025-01-08'' 300 10]"

text \<open>
  A saved snapshot and a source. For item 34 in region 10000002 the source answers 304
  when the request carries the entity tag of the snapshot; for item 35 in that region
  it answers 404; to every other request it delivers a series with an entity tag.
\<close>

definition example_saved_history :: "regionId \<rightharpoonup> (typeId \<rightharpoonup> entry list)" where
  "example_saved_history =
     [10000002 \<mapsto> [34 \<mapsto> [day ''2025-01-01'' 90 4], 35 \<mapsto> [day ''2025-01-01'' 7 3]]]"

definition example_saved_etags :: "regionId \<rightharpoonup> (typeId \<rightharpoonup> cacheToken)" where
  "example_saved_etags =
     [10000002 \<mapsto> [34 \<mapsto> \<lparr>etag = Some ''W/1a2b'', lastModified = None\<rparr>]]"

definition example_fetch :: fetcher where
  "example_fetch n r t cached =
     (if r = 10000002 \<and> t = 34 \<and> cached = Some \<lparr>etag = Some ''W/1a2b'', lastModified = None\<rparr>
      then Response 304 None None None
      else if r = 10000002 \<and> t = 35 then Response 404 None None None
      else Response 200 (Some [day ''2025-01-04'' 150 8]) (Some ''W/3c4d'') None)"

definition example_prices :: "(string \<times> real) list" where
  "example_prices = [(''1700086400000'', 120), (''1700000000000'', 100)]"





text \<open>
  Two regions with a repeated date in the first: the volumes are 1 and 1 in one region
  and \<open>10 ^ 16\<close> in the other.
\<close>

definition unit_day :: "real \<Rightarrow> entry" where
  "unit_day v = \<lparr>date = ''2025-01-01'', average = Fin 1, highest = Fin 1, lowest = Fin 1,
                 volume = Fin v, order_count = Fin 1\<rparr>"

definition repeated_region :: "(typeId \<times> entry list) list" where
  "repeated_region = [(34, [unit_day 1, unit_day 1])]"

definition large_region :: "(typeId \<times> entry list) list" where
  "large_region = [(34, [unit_day 10000000000000000])]"

section \<open>Properties of the score\<close>

lemma scoreBeforeClamp_Fin:
  "scoreBeforeClamp (Fin p) (Fin v) (Fin m) = Fin (spec_sum p v m)"
  by (simp add: scoreBeforeClamp_def spec_sum_def spec_volatility_term_def
      spec_momentum_term_def spec_price_term_def spec_bonus_def jge_def jgt_def Let_def
      min_def)

lemma clamp_Fin: "jmax (Fin 0) (jmin (Fin 100) (Fin s)) = Fin (max 0 (min 100 s))"
  by (simp add: max_def min_def)

text \<open>
  Claim C1. On finite inputs, \<open>calculateInvestmentScore\<close> is the reference formula of the
  specification: base 50, the volatility, momentum and price-change contributions, the
  breakout bonus, and the clamp to [0, 100]. At volatility 20, momentum 0 and price
  change 40 the sum before the clamp is 50 + 30 + 0 + 30 = 110 and the result is 100.
\<close>

theorem calculateInvestmentScore_refines_spec:
  "calculateInvestmentScore (Fin p) (Fin v) (Fin m) = Fin (spec_score p v m)
   \<and> scoreBeforeClamp (Fin 40) (Fin 20) (Fin 0) = Fin (50 + 30 + 0 + 30)
   \<and> scoreBeforeClamp (Fin 40) (Fin 20) (Fin 0) = Fin 110
   \<and> calculateInvestmentScore (Fin 40) (Fin 20) (Fin 0) = Fin 100"
proof -
  have general: "calculateInvestmentScore (Fin p) (Fin v) (Fin m) = Fin (spec_score p v m)"
    for p v m
    by (simp only: calculateInvestmentScore_def scoreBeforeClamp_Fin clamp_Fin spec_score_def)
  have sum: "spec_sum 40 20 0 = 110"
    by (simp add: spec_sum_def spec_volatility_term_def spec_momentum_term_def
        spec_price_term_def spec_bonus_def)
  have "spec_score 40 20 0 = 100"
    by (simp add: spec_score_def sum)
  then show ?thesis
    using general sum by (simp add: scoreBeforeClamp_Fin)
qed

text \<open>
  Claim C2. For finite, non-negative volatility, price change and momentum, however
  large, the investment score is a finite number in the closed interval [0, 100].
\<close>

theorem calculateInvestmentScore_bounded:
  assumes "0 \<le> v" and "0 \<le> p" and "0 \<le> m"
  shows "\<exists>s. calculateInvestmentScore (Fin p) (Fin v) (Fin m) = Fin s \<and> 0 \<le> s \<and> s \<le> 100"
  by (simp add: calculateInvestmentScore_def scoreBeforeClamp_Fin clamp_Fin)

theorem calculateInvestmentScore_bounded_witness:
  "(0::real) \<le> 1000 \<and> (0::real) \<le> 7 \<and> (0::real) \<le> 2
   \<and> (\<exists>s. calculateInvestmentScore (Fin 7) (Fin 1000) (Fin 2) = Fin s \<and> 0 \<le> s \<and> s \<le> 100)"
  using calculateInvestmentScore_bounded [of 1000 7 2] by simp

section \<open>Properties of the rounding\<close>

subsection \<open>Rounding to the nearest integer\<close>

lemma rne_of_int: "rne (of_int k) = k"
  by (simp add: rne_def)

lemma rne_cases: "rne m = \<lfloor>m\<rfloor> \<or> rne m = \<lfloor>m\<rfloor> + 1"
  by (simp add: rne_def Let_def)

lemma rne_ge_floor: "\<lfloor>m\<rfloor> \<le> rne m"
  using rne_cases [of m] by auto

lemma rne_le_floor1: "rne m \<le> \<lfloor>m\<rfloor> + 1"
  using rne_cases [of m] by auto

lemma rne_same_floor:
  assumes "\<lfloor>m\<rfloor> = \<lfloor>m'\<rfloor>" "m \<le> m'"
  shows "rne m \<le> rne m'"
proof -
  have "m - of_int \<lfloor>m'\<rfloor> \<le> m' - of_int \<lfloor>m'\<rfloor>"
    using assms(2) by simp
  then show ?thesis
    unfolding rne_def Let_def assms(1) by (simp split: if_splits)
qed

lemma rne_mono: "m \<le> m' \<Longrightarrow> rne m \<le> rne m'"
proof -
  assume le: "m \<le> m'"
  have fl: "\<lfloor>m\<rfloor> \<le> \<lfloor>m'\<rfloor>"
    using le by (rule floor_mono)
  show ?thesis
  proof (cases "\<lfloor>m\<rfloor> = \<lfloor>m'\<rfloor>")
    case True
    then show ?thesis using le by (rule rne_same_floor)
  next
    case False
    then have "\<lfloor>m\<rfloor> + 1 \<le> \<lfloor>m'\<rfloor>"
      using fl by simp
    then show ?thesis
      using rne_le_floor1 [of m] rne_ge_floor [of m'] by linarith
  qed
qed

subsection \<open>The exponent of a magnitude\<close>

lemma two_powi_pos: "0 < (2::real) powi n"
  by (simp add: power_int_def)

lemma two_powi_add: "(2::real) powi (a + b) = 2 powi a * 2 powi b"
  by (simp add: power_int_add)

lemma two_powi_mono: "a \<le> b \<Longrightarrow> (2::real) powi a \<le> 2 powi b"
  by (simp add: power_int_increasing)

lemma floor_log2_bounds:
  assumes "0 < p"
  shows "2 powi \<lfloor>log 2 p\<rfloor> \<le> p" "p < 2 powi (\<lfloor>log 2 p\<rfloor> + 1)"
proof -
  have "2 powr (of_int \<lfloor>log 2 p\<rfloor>) \<le> p \<and> p < 2 powr (of_int (\<lfloor>log 2 p\<rfloor> + 1))"
    using floor_log_eq_powr_iff [of p 2 "\<lfloor>log 2 p\<rfloor>"] assms by simp
  then show "2 powi \<lfloor>log 2 p\<rfloor> \<le> p" "p < 2 powi (\<lfloor>log 2 p\<rfloor> + 1)"
    using powr_real_of_int' [of 2 "\<lfloor>log 2 p\<rfloor>"] powr_real_of_int' [of 2 "\<lfloor>log 2 p\<rfloor> + 1"]
    by simp_all
qed

lemma floor_log2_eq:
  assumes "2 powi e \<le> p" "p < 2 powi (e + 1)"
  shows "\<lfloor>log 2 p\<rfloor> = e"
proof -
  have pos: "0 < p"
    using assms(1) two_powi_pos [of e] by linarith
  have "2 powr (of_int e) \<le> p \<and> p < 2 powr (of_int (e + 1))"
    using assms powr_real_of_int' [of 2 e] powr_real_of_int' [of 2 "e + 1"] by simp
  then show ?thesis
    using floor_log_eq_powr_iff [of p 2 e] pos by simp
qed

lemma expo_ge: "- 1074 \<le> expo x"
  by (simp add: expo_def)

lemma expo_pos: "0 < p \<Longrightarrow> expo p = max \<lfloor>log 2 p\<rfloor> (- 1022) - 52"
  by (simp add: expo_def)

lemma expo_eval:
  assumes "2 powi e \<le> \<bar>x\<bar>" "\<bar>x\<bar> < 2 powi (e + 1)"
  shows "expo x = max e (- 1022) - 52"
  using floor_log2_eq [OF assms] by (simp add: expo_def)


lemma scaled_upper:
  assumes "0 < p"
  shows "p / 2 powi expo p < 2 ^ 53"
proof -
  have "p < 2 powi (\<lfloor>log 2 p\<rfloor> + 1)"
    using floor_log2_bounds(2) [OF assms] .
  also have "\<dots> \<le> 2 powi (expo p + 53)"
    by (rule two_powi_mono) (simp add: expo_pos assms)
  also have "\<dots> = 2 powi expo p * 2 ^ 53"
    by (simp add: two_powi_add)
  finally show ?thesis
    by (simp add: pos_divide_less_eq mult.commute two_powi_pos)
qed


subsection \<open>Rounding is odd, monotone and idempotent\<close>

lemma rnd_minus: "rnd (- x) = - rnd x"
  by (simp add: rnd_def expo_def sgn_minus)

lemma rnd_0: "rnd 0 = 0"
  by (simp add: rnd_def)

lemma rnd_pos_eq: "0 < p \<Longrightarrow> rnd p = of_int (rne (p / 2 powi expo p)) * 2 powi expo p"
  by (simp add: rnd_def)

lemma rnd_eval:
  assumes "2 powi e \<le> \<bar>x\<bar>" "\<bar>x\<bar> < 2 powi (e + 1)"
  shows "rnd x = sgn x * (of_int (rne (\<bar>x\<bar> / 2 powi (max e (- 1022) - 52)))
                    * 2 powi (max e (- 1022) - 52))"
  by (simp add: rnd_def expo_eval [OF assms])

lemma rne_scaled_bounds:
  assumes "0 < p"
  shows "0 \<le> rne (p / 2 powi expo p)" "rne (p / 2 powi expo p) \<le> 2 ^ 53"
proof -
  have "rne (of_int 0) \<le> rne (p / 2 powi expo p)"
    by (rule rne_mono) (use assms in \<open>simp add: two_powi_pos\<close>)
  then show "0 \<le> rne (p / 2 powi expo p)"
    by (simp only: rne_of_int)
  have "rne (p / 2 powi expo p) \<le> rne (of_int (2 ^ 53))"
    by (rule rne_mono) (use scaled_upper [OF assms] in simp)
  then show "rne (p / 2 powi expo p) \<le> 2 ^ 53"
    by (simp only: rne_of_int)
qed







subsection \<open>The doubles are fixed points\<close>

lemma rnd_of_integer_scaled:
  assumes "0 < p" "p / 2 powi expo p = of_int j"
  shows "rnd p = p"
proof -
  have "rnd p = of_int (rne (of_int j)) * 2 powi expo p"
    by (simp only: rnd_pos_eq [OF assms(1)] assms(2))
  also have "\<dots> = (p / 2 powi expo p) * 2 powi expo p"
    by (simp only: rne_of_int assms(2))
  also have "\<dots> = p"
    by simp
  finally show ?thesis .
qed

lemma scale_div: "(a::real) = b * c \<Longrightarrow> b \<noteq> 0 \<Longrightarrow> k * a / b = k * c"
  by simp

lemma rnd_grid_pos:
  assumes k: "0 < k" "k \<le> 2 ^ 53" and q: "- 1074 \<le> q"
  shows "rnd (of_int k * 2 powi q) = of_int k * 2 powi q"
proof -
  let ?p = "real_of_int k * 2 powi q"
  have pos: "0 < ?p"
    using k(1) by (simp add: two_powi_pos)
  have kr: "real_of_int k \<le> 2 ^ 53"
    using k(2) by (metis of_int_le_iff of_int_numeral of_int_power)
  show ?thesis
  proof (cases "expo ?p \<le> q")
    case True
    then obtain n where n: "q = expo ?p + int n"
      by (metis zle_iff_zadd)
    have "(2::real) powi q = 2 powi expo ?p * 2 ^ n"
      by (subst n) (simp only: two_powi_add power_int_of_nat)
    then have "?p / 2 powi expo ?p = real_of_int k * 2 ^ n"
      by (rule scale_div) simp
    also have "\<dots> = of_int (k * 2 ^ n)"
      by simp
    finally show ?thesis
      by (rule rnd_of_integer_scaled [OF pos])
  next
    case False
    then have gt: "q < expo ?p"
      by simp
    then have nrm: "- 1022 \<le> \<lfloor>log 2 ?p\<rfloor>"
      using q unfolding expo_pos [OF pos] by linarith
    then have e: "expo ?p + 52 = \<lfloor>log 2 ?p\<rfloor>"
      by (simp only: expo_pos [OF pos])
    have low: "2 powi (expo ?p + 52) \<le> ?p"
      unfolding e using floor_log2_bounds(1) [OF pos] .
    also have "?p \<le> 2 ^ 53 * 2 powi q"
      using kr by (simp add: mult_right_mono two_powi_pos)
    also have "\<dots> = 2 powi (q + 53)"
      by (simp add: two_powi_add)
    finally have le: "(2::real) powi (expo ?p + 52) \<le> 2 powi (q + 53)" .
    have "expo ?p + 52 \<le> q + 53"
    proof (rule ccontr)
      assume "\<not> expo ?p + 52 \<le> q + 53"
      then have "q + 53 < expo ?p + 52"
        by simp
      then have "(2::real) powi (q + 53) < 2 powi (expo ?p + 52)"
        by (intro power_int_strict_increasing) simp_all
      with le show False by simp
    qed
    with gt have eq: "expo ?p = q + 1"
      by simp
    have "2 powi (q + 53) \<le> ?p"
      using low by (simp add: eq add.commute add.left_commute)
    then have "2 ^ 53 * 2 powi q \<le> real_of_int k * 2 powi q"
      by (simp add: two_powi_add mult.commute)
    then have "2 ^ 53 \<le> real_of_int k"
      by (simp add: two_powi_pos)
    with kr have k53: "real_of_int k = 2 ^ 53"
      by simp
    have "(2::real) powi expo ?p = 2 powi q * 2"
      by (simp only: eq two_powi_add) simp
    then have "?p / 2 powi expo ?p = real_of_int k / 2"
      by (simp only:) simp
    also have "\<dots> = 2 ^ 52"
      by (simp only: k53) simp
    also have "\<dots> = of_int (2 ^ 52)"
      by simp
    finally show ?thesis
      by (rule rnd_of_integer_scaled [OF pos])
  qed
qed

lemma rnd_grid:
  assumes "\<bar>k\<bar> \<le> 2 ^ 53" and "- 1074 \<le> q"
  shows "rnd (of_int k * 2 powi q) = of_int k * 2 powi q"
proof -
  consider "k = 0" | "0 < k" | "k < 0"
    by linarith
  then show ?thesis
  proof cases
    case 1
    then show ?thesis by (simp add: rnd_0)
  next
    case 2
    then show ?thesis using assms by (intro rnd_grid_pos) simp_all
  next
    case 3
    then have "rnd (of_int (- k) * 2 powi q) = of_int (- k) * 2 powi q"
      using assms by (intro rnd_grid_pos) simp_all
    then show ?thesis
      using rnd_minus [of "of_int k * 2 powi q"] by simp
  qed
qed

lemma rnd_of_int: "\<bar>k\<bar> \<le> 2 ^ 53 \<Longrightarrow> rnd (of_int k) = of_int k"
  using rnd_grid [of k 0] by simp

lemma rnd_idem: "rnd (rnd x) = rnd x"
proof -
  have pos: "rnd (rnd p) = rnd p" if "0 < p" for p
    unfolding rnd_pos_eq [OF that]
    by (rule rnd_grid) (use rne_scaled_bounds [OF that] expo_ge [of p] in simp_all)
  consider "x = 0" | "0 < x" | "x < 0"
    by linarith
  then show ?thesis
  proof cases
    case 1
    then show ?thesis by (simp add: rnd_0)
  next
    case 2
    then show ?thesis by (rule pos)
  next
    case 3
    then have "rnd (rnd (- x)) = rnd (- x)"
      by (intro pos) simp
    then show ?thesis by (simp add: rnd_minus)
  qed
qed

subsection \<open>The rounding operators\<close>

lemma dbl_fixed: "rnd x = x \<Longrightarrow> \<bar>x\<bar> < 2 ^ 1024 \<Longrightarrow> dbl x = Fin x"
  by (simp add: dbl_def)

lemma isDouble_dbl: "isDouble (dbl x)"
  by (simp add: dbl_def Let_def rnd_idem)

lemma isDouble_rounded: "isDouble (rounded z)"
  by (cases z) (simp_all add: isDouble_dbl)

lemma rounded_double: "isDouble x \<Longrightarrow> rounded x = x"
  by (cases x) (simp_all add: dbl_fixed)

lemma jadd_commute: "jadd a b = jadd b a"
  by (cases a; cases b) simp_all

lemma jadd_zero: "jadd (Fin 0) x = x"
  by (cases x) simp_all

lemma dadd_commute: "dadd a b = dadd b a"
  by (simp add: dadd_def jadd_commute)

lemma dadd_zero: "isDouble x \<Longrightarrow> dadd (Fin 0) x = x"
  by (simp add: dadd_def jadd_zero rounded_double)

lemma isDouble_dmul: "isDouble (dmul a b)"
  by (simp add: dmul_def isDouble_rounded)

lemma dbl_of_int: "\<bar>k\<bar> \<le> 2 ^ 53 \<Longrightarrow> dbl (of_int k) = Fin (of_int k)"
proof (rule dbl_fixed)
  assume k: "\<bar>k\<bar> \<le> 2 ^ 53"
  then show "rnd (of_int k) = of_int k"
    by (rule rnd_of_int)
  have "\<bar>real_of_int k\<bar> \<le> 2 ^ 53"
    using k by (metis of_int_abs of_int_le_iff of_int_numeral of_int_power)
  also have "(2::real) ^ 53 < 2 ^ 1024"
    by (rule power_strict_increasing) simp_all
  finally show "\<bar>real_of_int k\<bar> < 2 ^ 1024" .
qed

lemma dbl_numeral: "(numeral n :: int) \<le> 2 ^ 53 \<Longrightarrow> dbl (numeral n) = Fin (numeral n)"
  using dbl_of_int [of "numeral n"] by simp

lemma dbl_zero: "dbl 0 = Fin 0"
  using dbl_of_int [of 0] by simp

lemma dbl_one: "dbl 1 = Fin 1"
  using dbl_of_int [of 1] by simp

lemma isDouble_numeral: "(numeral n :: int) \<le> 2 ^ 53 \<Longrightarrow> isDouble (Fin (numeral n))"
  using isDouble_dbl [of "numeral n"] by (simp only: dbl_numeral)

lemma isDouble_zero: "isDouble (Fin 0)"
  using isDouble_dbl [of 0] by (simp only: dbl_zero)

lemma isDouble_one: "isDouble (Fin 1)"
  using isDouble_dbl [of 1] by (simp only: dbl_one)


section \<open>Properties of the region aggregation\<close>

subsection \<open>What the loops leave in the accumulators\<close>

lemma map_of_accumulateEntry:
  "map_of (accumulateEntry bd e) =
     (map_of bd)(date e \<mapsto>
        addEntry (case map_of bd (date e) of None \<Rightarrow> newAccum (date e) | Some a \<Rightarrow> a) e)"
  by (cases "map_of bd (date e)") (simp_all add: accumulateEntry_def update_conv' Let_def)

lemma keys_accumulateEntry:
  "fst ` set (accumulateEntry bd e) = insert (date e) (fst ` set bd)"
  by (cases "map_of bd (date e)")
    (auto simp add: accumulateEntry_def update_conv' dom_update Let_def)

lemma distinct_accumulateEntry:
  "distinct (map fst bd) \<Longrightarrow> distinct (map fst (accumulateEntry bd e))"
  by (cases "map_of bd (date e)")
    (simp_all add: accumulateEntry_def update_conv' distinct_update Let_def)

lemma keys_foldl_accumulateEntry:
  "fst ` set (foldl accumulateEntry bd es) = fst ` set bd \<union> date ` set es"
  by (induction es arbitrary: bd) (auto simp add: keys_accumulateEntry)

lemma distinct_foldl_accumulateEntry:
  "distinct (map fst bd) \<Longrightarrow> distinct (map fst (foldl accumulateEntry bd es))"
  by (induction es arbitrary: bd) (simp_all add: distinct_accumulateEntry)

lemma filter_key_empty: "k \<notin> f ` set xs \<Longrightarrow> filter (\<lambda>x. f x = k) xs = []"
  by (auto simp add: filter_empty_conv)

lemma map_of_foldl_accumulateEntry:
  "map_of (foldl accumulateEntry bd es) d =
     (if d \<in> date ` set es
      then Some (foldl addEntry (case map_of bd d of None \<Rightarrow> newAccum d | Some a \<Rightarrow> a)
                   (filter (\<lambda>e. date e = d) es))
      else map_of bd d)"
proof (induction es arbitrary: bd)
  case Nil
  show ?case by simp
next
  case (Cons e es)
  show ?case
    by (auto simp add: Cons.IH map_of_accumulateEntry filter_key_empty)
qed

lemma map_of_accumulateType:
  "map_of (accumulateType bt item) t =
     (if t = fst item
      then Some (foldl accumulateEntry (case map_of bt t of None \<Rightarrow> [] | Some bd \<Rightarrow> bd)
                   (snd item))
      else map_of bt t)"
  by (cases "map_of bt (fst item)") (simp_all add: accumulateType_def update_conv' Let_def)

lemma map_of_foldl_accumulateType:
  "map_of (foldl accumulateType bt items) t =
     (if t \<in> fst ` set items
      then Some (foldl accumulateEntry (case map_of bt t of None \<Rightarrow> [] | Some bd \<Rightarrow> bd)
                   (concat (map snd (filter (\<lambda>item. fst item = t) items))))
      else map_of bt t)"
proof (induction items arbitrary: bt)
  case Nil
  show ?case by simp
next
  case (Cons item items)
  show ?case
    by (auto simp add: Cons.IH map_of_accumulateType filter_key_empty)
qed

lemma foldl_accumulateRegion:
  "foldl accumulateRegion bt h = foldl accumulateType bt (concat (map snd h))"
  by (induction h arbitrary: bt) (simp_all add: accumulateRegion_def)

lemma map_of_byTypeAndDate:
  "map_of (byTypeAndDate h) t =
     (if t \<in> typeIds h then Some (foldl accumulateEntry [] (regionalEntries h t)) else None)"
  by (simp add: byTypeAndDate_def foldl_accumulateRegion map_of_foldl_accumulateType
      typeIds_def regionalEntries_def)

subsection \<open>The merged series of one item\<close>

lemma map_filter_all_Some:
  "(\<And>x. x \<in> set xs \<Longrightarrow> f x = Some (g x)) \<Longrightarrow> List.map_filter f xs = map g xs"
  by (induction xs) (simp_all add: List.map_filter_simps)

lemma mergedSeries_foldl:
  "mergedSeries (foldl accumulateEntry [] es) =
     map (\<lambda>d. mergedEntry (accumOf d es)) (sorted_list_of_set (date ` set es))"
proof -
  let ?bd = "foldl accumulateEntry [] es"
  have keys: "set (map fst ?bd) = date ` set es"
    using keys_foldl_accumulateEntry [of "[]" es] by simp
  have dist: "distinct (map fst ?bd)"
    by (rule distinct_foldl_accumulateEntry) simp
  have sorted: "sort (map fst ?bd) = sorted_list_of_set (date ` set es)"
    using sorted_list_of_set_sort_remdups [of "map fst ?bd"] dist keys
    by (simp add: distinct_remdups_id)
  have "List.map_filter (\<lambda>d. map_option mergedEntry (map_of ?bd d))
          (sorted_list_of_set (date ` set es))
      = map (\<lambda>d. mergedEntry (accumOf d es)) (sorted_list_of_set (date ` set es))"
    by (rule map_filter_all_Some) (simp add: map_of_foldl_accumulateEntry accumOf_def)
  then show ?thesis
    by (simp add: mergedSeries_def sorted)
qed

lemma map_of_aggregateRegionData:
  "map_of (aggregateRegionData h) t =
     (if t \<in> typeIds h
      then Some (map (\<lambda>d. mergedEntry (accumOf d (regionalEntries h t)))
                   (sorted_list_of_set (date ` set (regionalEntries h t))))
      else None)"
  by (simp add: aggregateRegionData_def map_of_map map_of_byTypeAndDate mergedSeries_foldl)

lemma acc_date_foldl_addEntry: "acc_date (foldl addEntry a es) = acc_date a"
  by (induction es arbitrary: a) (simp_all add: addEntry_def)

lemma date_mergedEntry_accumOf: "date (mergedEntry (accumOf d es)) = d"
  by (simp add: mergedEntry_def accumOf_def acc_date_foldl_addEntry newAccum_def)

lemma dates_regionalEntries: "date ` set (regionalEntries h t) = inputDates h t"
  by (auto simp add: regionalEntries_def inputDates_def split: if_splits)

subsection \<open>The example history\<close>

lemma example_byTypeAndDate:
  "byTypeAndDate example_history =
    [(34, [(''2025-01-02'', \<lparr>acc_date = ''2025-01-02'', totalVolume = Fin 30,
              weightedAvgSum = Fin 3600, acc_highest = Fin 135, acc_lowest = Fin 95,
              orderCount = Fin 4\<rparr>),
           (''2025-01-01'', \<lparr>acc_date = ''2025-01-01'', totalVolume = Fin 0,
              weightedAvgSum = Fin 0, acc_highest = Fin 95, acc_lowest = Fin 85,
              orderCount = Fin 2\<rparr>),
           (''2025-01-03'', \<lparr>acc_date = ''2025-01-03'', totalVolume = Fin 5,
              weightedAvgSum = Fin 700, acc_highest = Fin 145, acc_lowest = Fin 135,
              orderCount = Fin 2\<rparr>)]),
     (35, [(''2025-01-01'', \<lparr>acc_date = ''2025-01-01'', totalVolume = Fin 3,
              weightedAvgSum = Fin 21, acc_highest = Fin 12, acc_lowest = Fin 2,
              orderCount = Fin 2\<rparr>)])]"
  by (simp add: example_history_def forge_region_def domain_region_def day_def byTypeAndDate_def accumulateRegion_def
      accumulateType_def accumulateEntry_def newAccum_def addEntry_def Let_def
      dadd_def dmul_def dbl_numeral dbl_zero)

lemma example_aggregate:
  "map_of (aggregateRegionData example_history) 34 = Some example_merged"
  by (simp add: aggregateRegionData_def example_byTypeAndDate mergedSeries_def mergedEntry_def
      List.map_filter_def less_eq_char_def less_char_def example_merged_def jgt_def
      ddiv_def dbl_numeral)

lemma example_typeIds: "34 \<in> typeIds example_history"
  by (simp add: typeIds_def example_history_def forge_region_def domain_region_def)

lemma example_inputDates:
  "inputDates example_history 34 = {''2025-01-01'', ''2025-01-02'', ''2025-01-03''}"
  by (auto simp add: inputDates_def example_history_def forge_region_def domain_region_def day_def)

subsection \<open>Dates of the merged series\<close>

text \<open>
  Claim C4. For every input to \<open>aggregateRegionData\<close> and every item that occurs in it,
  the result has a series for the item; the set of its dates is the union of the dates
  of the item's series in the regions, and the dates are in ascending order without
  repetition.
\<close>

theorem aggregateRegionData_dates:
  assumes "t \<in> typeIds h"
  shows "\<exists>out. map_of (aggregateRegionData h) t = Some out
           \<and> set (map date out) = inputDates h t
           \<and> sorted (map date out) \<and> distinct (map date out)"
proof -
  let ?ds = "sorted_list_of_set (date ` set (regionalEntries h t))"
  let ?out = "map (\<lambda>d. mergedEntry (accumOf d (regionalEntries h t))) ?ds"
  have dates: "map date ?out = ?ds"
    by (simp add: comp_def date_mergedEntry_accumOf)
  have "map_of (aggregateRegionData h) t = Some ?out"
    using assms by (simp add: map_of_aggregateRegionData)
  moreover have "set (map date ?out) = date ` set (regionalEntries h t)"
    by (simp only: dates) simp
  then have "set (map date ?out) = inputDates h t"
    by (simp only: dates_regionalEntries)
  moreover have "sorted (map date ?out)" "distinct (map date ?out)"
    by (simp_all only: dates) simp_all
  ultimately show ?thesis by blast
qed

theorem aggregateRegionData_dates_witness:
  "34 \<in> typeIds example_history
   \<and> (\<exists>out. map_of (aggregateRegionData example_history) 34 = Some out
          \<and> set (map date out) = {''2025-01-01'', ''2025-01-02'', ''2025-01-03''}
          \<and> sorted (map date out) \<and> distinct (map date out))"
  using aggregateRegionData_dates [OF example_typeIds]
  by (simp add: example_typeIds example_inputDates)

subsection \<open>Evaluating the rounding\<close>

lemma rnd_numeral: "(numeral n :: int) \<le> 2 ^ 53 \<Longrightarrow> rnd (numeral n) = numeral n"
  using rnd_of_int [of "numeral n"] by simp

lemma rnd_one: "rnd 1 = 1"
  using rnd_of_int [of 1] by simp

lemma dbl_eval:
  assumes "2 powi e \<le> \<bar>x\<bar>" "\<bar>x\<bar> < 2 powi (e + 1)"
  shows "dbl x =
    (let y = sgn x * (of_int (rne (\<bar>x\<bar> / 2 powi (max e (- 1022) - 52)))
               * 2 powi (max e (- 1022) - 52))
     in if 2 ^ 1024 \<le> \<bar>y\<bar> then (if 0 < y then PInf else NInf) else Fin y)"
  by (simp only: dbl_def rnd_eval [OF assms])





lemma big_sum: "dbl 10000000000000002 = Fin 10000000000000002"
  by (subst dbl_eval [where e = 53]) (simp_all add: rne_def Let_def)

lemma big_tie: "dbl 10000000000000001 = Fin 10000000000000000"
  by (subst dbl_eval [where e = 53]) (simp_all add: rne_def Let_def)

lemma big_exact: "dbl 10000000000000000 = Fin 10000000000000000"
  by (subst dbl_eval [where e = 53]) (simp_all add: rne_def Let_def)

subsection \<open>Order of the regions\<close>

lemma jmax_left_commute: "jmax (jmax a x) y = jmax (jmax a y) x"
  by (cases a; cases x; cases y) auto

lemma jmin_left_commute: "jmin (jmin a x) y = jmin (jmin a y) x"
  by (cases a; cases x; cases y) auto

lemma filter_key_at_most_one:
  "distinct (map f xs) \<Longrightarrow>
     filter (\<lambda>x. f x = k) xs = [] \<or> (\<exists>a. a \<in> set xs \<and> filter (\<lambda>x. f x = k) xs = [a])"
proof (induction xs)
  case Nil
  show ?case by simp
next
  case (Cons x xs)
  show ?case
  proof (cases "f x = k")
    case True
    then have "k \<notin> f ` set xs" using Cons.prems by auto
    then have "filter (\<lambda>x. f x = k) xs = []" by (rule filter_key_empty)
    with True show ?thesis by simp
  next
    case False
    then show ?thesis using Cons by auto
  qed
qed

lemma dadd_first_commute:
  "isDouble x \<Longrightarrow> isDouble y \<Longrightarrow> dadd (dadd (Fin 0) x) y = dadd (dadd (Fin 0) y) x"
  by (simp only: dadd_zero) (rule dadd_commute)

lemma addEntry_first_commute:
  assumes "doubleEntry a" "doubleEntry b"
  shows "addEntry (addEntry (newAccum d) a) b = addEntry (addEntry (newAccum d) b) a"
proof -
  have v: "dadd (dadd (Fin 0) (volume a)) (volume b) = dadd (dadd (Fin 0) (volume b)) (volume a)"
    using assms by (intro dadd_first_commute) (simp_all add: doubleEntry_def)
  have o: "dadd (dadd (Fin 0) (order_count a)) (order_count b)
         = dadd (dadd (Fin 0) (order_count b)) (order_count a)"
    using assms by (intro dadd_first_commute) (simp_all add: doubleEntry_def)
  have w: "dadd (dadd (Fin 0) (dmul (average a) (volume a))) (dmul (average b) (volume b))
         = dadd (dadd (Fin 0) (dmul (average b) (volume b))) (dmul (average a) (volume a))"
    by (intro dadd_first_commute isDouble_dmul)
  show ?thesis
    by (simp add: addEntry_def newAccum_def v o w jmax_left_commute [of NInf]
        jmin_left_commute [of PInf])
qed

lemma accumOf_append_commute:
  assumes "normalizedSeries xs" "normalizedSeries ys"
  shows "accumOf d (xs @ ys) = accumOf d (ys @ xs)"
proof -
  let ?fx = "filter (\<lambda>e. date e = d) xs" and ?fy = "filter (\<lambda>e. date e = d) ys"
  have x: "?fx = [] \<or> (\<exists>a. a \<in> set xs \<and> ?fx = [a])"
    using assms(1) by (intro filter_key_at_most_one) (simp add: normalizedSeries_def)
  have y: "?fy = [] \<or> (\<exists>b. b \<in> set ys \<and> ?fy = [b])"
    using assms(2) by (intro filter_key_at_most_one) (simp add: normalizedSeries_def)
  have dx: "\<And>a. a \<in> set xs \<Longrightarrow> doubleEntry a"
    using assms(1) by (simp add: normalizedSeries_def list_all_iff)
  have dy: "\<And>b. b \<in> set ys \<Longrightarrow> doubleEntry b"
    using assms(2) by (simp add: normalizedSeries_def list_all_iff)
  have "foldl addEntry (newAccum d) (?fx @ ?fy) = foldl addEntry (newAccum d) (?fy @ ?fx)"
    using x y dx dy by (auto simp add: addEntry_first_commute)
  then show ?thesis by (simp add: accumOf_def)
qed

lemma normalizedSeries_item:
  assumes "normalizedRegion A"
  shows "normalizedSeries (concat (map snd (filter (\<lambda>item. fst item = t) A)))"
proof -
  have "filter (\<lambda>item. fst item = t) A = []
        \<or> (\<exists>i. i \<in> set A \<and> filter (\<lambda>item. fst item = t) A = [i])"
    using assms by (intro filter_key_at_most_one) (simp add: normalizedRegion_def)
  moreover have "\<And>i. i \<in> set A \<Longrightarrow> normalizedSeries (snd i)"
    using assms by (simp add: normalizedRegion_def list_all_iff)
  ultimately show ?thesis
    by (auto simp add: normalizedSeries_def)
qed

lemma regionalEntries_two:
  "regionalEntries [(ra, A), (rb, B)] t
     = concat (map snd (filter (\<lambda>item. fst item = t) A))
       @ concat (map snd (filter (\<lambda>item. fst item = t) B))"
  by (simp add: regionalEntries_def)

lemma typeIds_swap: "typeIds [ra, rb] = typeIds [rb, ra]"
  by (auto simp add: typeIds_def)

lemma example_regions_normalized: "normalizedRegion forge_region" "normalizedRegion domain_region"
  by (simp_all add: normalizedRegion_def normalizedSeries_def doubleEntry_def forge_region_def
      domain_region_def day_def rnd_numeral rnd_0)

text \<open>
  Claim C5. Take two regions \<open>A\<close> and \<open>B\<close> that are normalized as the data model
  requires (one series per item, one entry per date in a series, numbers that are
  doubles). Merging them in the order \<open>[A, B]\<close> gives the same aggregated series for
  every item as merging them in the order \<open>[B, A]\<close>: the same dates and, on each date,
  the same average, highest, lowest, volume and order count, computed in doubles (the
  results are equal as maps from item to series).
\<close>

theorem aggregateRegionData_commutes:
  assumes "normalizedRegion A" "normalizedRegion B"
  shows "map_of (aggregateRegionData [(ra, A), (rb, B)])
           = map_of (aggregateRegionData [(rb, B), (ra, A)])"
proof
  fix t
  let ?a = "concat (map snd (filter (\<lambda>item. fst item = t) A))"
  let ?b = "concat (map snd (filter (\<lambda>item. fst item = t) B))"
  have "accumOf d (?a @ ?b) = accumOf d (?b @ ?a)" for d
    by (rule accumOf_append_commute) (rule normalizedSeries_item, rule assms)+
  moreover have "set (?a @ ?b) = set (?b @ ?a)"
    by auto
  ultimately show "map_of (aggregateRegionData [(ra, A), (rb, B)]) t
      = map_of (aggregateRegionData [(rb, B), (ra, A)]) t"
    by (simp only: map_of_aggregateRegionData regionalEntries_two
        typeIds_swap [of "(ra, A)" "(rb, B)"])
qed

theorem aggregateRegionData_commutes_witness:
  "normalizedRegion forge_region \<and> normalizedRegion domain_region
   \<and> map_of (aggregateRegionData [(10000002, forge_region), (10000043, domain_region)])
       = map_of (aggregateRegionData [(10000043, domain_region), (10000002, forge_region)])
   \<and> map_of (aggregateRegionData [(10000043, domain_region), (10000002, forge_region)]) 34
       = Some example_merged"
proof -
  from aggregateRegionData_commutes [OF example_regions_normalized, of 10000002 10000043]
  have c: "map_of (aggregateRegionData [(10000002, forge_region), (10000043, domain_region)])
       = map_of (aggregateRegionData [(10000043, domain_region), (10000002, forge_region)])" .
  then have "map_of (aggregateRegionData [(10000043, domain_region), (10000002, forge_region)]) 34
       = map_of (aggregateRegionData example_history) 34"
    by (simp only: example_history_def)
  with c show ?thesis
    by (simp only: example_regions_normalized example_aggregate)
qed

text \<open>
  The hypothesis of one entry per date is used: the rounded sum of three volumes
  depends on their order. With the volumes 1 and 1 in one region and \<open>10 ^ 16\<close> in the
  other, all on one date, the total is \<open>10 ^ 16 + 2\<close> in one order of the regions and
  \<open>10 ^ 16\<close> in the other.
\<close>

lemma repeated_dates_accumulators:
  "byTypeAndDate [(10000002, repeated_region), (10000043, large_region)]
     = [(34, [(''2025-01-01'', \<lparr>acc_date = ''2025-01-01'',
                 totalVolume = Fin 10000000000000002, weightedAvgSum = Fin 10000000000000002,
                 acc_highest = Fin 1, acc_lowest = Fin 1, orderCount = Fin 3\<rparr>)])]"
  "byTypeAndDate [(10000043, large_region), (10000002, repeated_region)]
     = [(34, [(''2025-01-01'', \<lparr>acc_date = ''2025-01-01'',
                 totalVolume = Fin 10000000000000000, weightedAvgSum = Fin 10000000000000000,
                 acc_highest = Fin 1, acc_lowest = Fin 1, orderCount = Fin 3\<rparr>)])]"
  by (simp_all add: repeated_region_def large_region_def unit_day_def byTypeAndDate_def
      accumulateRegion_def accumulateType_def accumulateEntry_def newAccum_def addEntry_def
      Let_def dadd_def dmul_def dbl_numeral dbl_zero dbl_one big_sum big_tie big_exact)

lemma repeated_dates_order_matters:
  "map_option (map volume)
     (map_of (aggregateRegionData [(10000002, repeated_region), (10000043, large_region)]) 34)
     = Some [Fin 10000000000000002]"
  "map_option (map volume)
     (map_of (aggregateRegionData [(10000043, large_region), (10000002, repeated_region)]) 34)
     = Some [Fin 10000000000000000]"
  by (simp_all add: aggregateRegionData_def repeated_dates_accumulators mergedSeries_def
      mergedEntry_def List.map_filter_def)

subsection \<open>The merged average and the contributing prices\<close>













section \<open>Properties of the synchronisation\<close>

lemma lookup2_assign2:
  "lookup2 (assign2 m r' t' v) r t = (if r = r' \<and> t = t' then Some v else lookup2 m r t)"
  by (simp add: lookup2_def assign2_def split: option.splits)

lemma lookup2_init: "m r' = None \<Longrightarrow> lookup2 (m(r' \<mapsto> Map.empty)) r t = lookup2 m r t"
  by (simp add: lookup2_def)

lemma initRegion_pair:
  "lookup2 (historyData (initRegion r' st)) r t = lookup2 (historyData st) r t"
  "lookup2 (etagData (initRegion r' st)) r t = lookup2 (etagData st) r t"
  by (simp_all add: initRegion_def Let_def lookup2_init)

text \<open>
  One request leaves the series and the token of a pair as they were, unless it is the
  request for that pair and its answer carries a new series.
\<close>

lemma refreshPair_pair:
  assumes "(r', t') = (r, t) \<longrightarrow>
             \<not> replaces (fetch (requestCount st + 1) r t (lookup2 (etagData st) r t))"
  shows "lookup2 (historyData (refreshPair fetch r' t' st)) r t = lookup2 (historyData st) r t
       \<and> lookup2 (etagData (refreshPair fetch r' t' st)) r t = lookup2 (etagData st) r t"
proof (cases "fetch (requestCount st + 1) r' t' (lookup2 (etagData st) r' t')")
  case NetworkError
  then show ?thesis by (simp add: refreshPair_def Let_def)
next
  case (Response status body e l)
  then show ?thesis
    using assms
    by (cases body) (auto simp add: refreshPair_def Let_def lookup2_assign2)
qed

text \<open>
  So does the whole run, when no answer to a request for the pair that carries the
  pair's token carries a new series: the token then stays what it was, and every
  request for the pair carries it.
\<close>

lemma itemLoop_pair:
  assumes "\<And>n. \<not> replaces (fetch n r t c0)" and "lookup2 (etagData st) r t = c0"
  shows "lookup2 (historyData (itemLoop fetch limit r' items st)) r t = lookup2 (historyData st) r t
       \<and> lookup2 (etagData (itemLoop fetch limit r' items st)) r t = c0"
  using assms(2)
proof (induction items arbitrary: st)
  case Nil
  then show ?case by simp
next
  case (Cons t' items)
  have step: "lookup2 (historyData (refreshPair fetch r' t' st)) r t = lookup2 (historyData st) r t
       \<and> lookup2 (etagData (refreshPair fetch r' t' st)) r t = lookup2 (etagData st) r t"
    by (rule refreshPair_pair) (simp add: Cons.prems assms(1))
  then have "lookup2 (etagData (refreshPair fetch r' t' st)) r t = c0"
    using Cons.prems by simp
  from Cons.IH [OF this] step Cons.prems show ?case
    by simp
qed

lemma regionLoop_pair:
  assumes "\<And>n. \<not> replaces (fetch n r t c0)" and "lookup2 (etagData st) r t = c0"
  shows "lookup2 (historyData (regionLoop fetch limit items regions st)) r t
           = lookup2 (historyData st) r t
       \<and> lookup2 (etagData (regionLoop fetch limit items regions st)) r t = c0"
  using assms(2)
proof (induction regions arbitrary: st)
  case Nil
  then show ?case by simp
next
  case (Cons r' regions)
  have init: "lookup2 (etagData (initRegion r' st)) r t = c0"
    using Cons.prems by (simp add: initRegion_pair)
  from itemLoop_pair [where fetch = fetch and r = r and t = t and ?c0.0 = c0, OF assms(1) init,
      of limit r' items]
  have items: "lookup2 (historyData (itemLoop fetch limit r' items (initRegion r' st))) r t
           = lookup2 (historyData st) r t"
      "lookup2 (etagData (itemLoop fetch limit r' items (initRegion r' st))) r t = c0"
    by (simp_all add: initRegion_pair)
  from Cons.IH [OF items(2)] items(1) Cons.prems show ?case
    by simp
qed

lemma populateHistory_pair:
  assumes "\<And>n. \<not> replaces (fetch n r t (lookup2 etags0 r t))"
  shows "storedSeries (populateHistory fetch regions items history0 etags0) r t
           = lookup2 history0 r t
       \<and> storedToken (populateHistory fetch regions items history0 etags0) r t
           = lookup2 etags0 r t"
  using regionLoop_pair [where fetch = fetch and r = r and t = t
      and ?c0.0 = "lookup2 etags0 r t", OF assms,
      of "\<lparr>historyData = history0, etagData = etags0, fetched = 0, skipped = 0, errors = 0,
        requestCount = 0\<rparr>" NUMBER_OF_ITEMS_TO_PROCESS items regions]
  by (simp add: populateHistory_def storedSeries_def storedToken_def)

lemma status_not_replaces:
  "statusOf res = Some 304 \<or> statusOf res = Some 404 \<Longrightarrow> \<not> replaces res"
  by (cases res) auto

text \<open>
  Claim C7. If the source answers 304 Not Modified to every request for a pair that
  carries the pair's cached token, then after the run the series stored for the pair
  and its cache token are the ones the snapshot held before the run.
\<close>

theorem unchanged_keeps_series_and_token:
  assumes "\<forall>n. statusOf (fetch n r t (lookup2 etags0 r t)) = Some 304"
  shows "storedSeries (populateHistory fetch regions items history0 etags0) r t
           = lookup2 history0 r t
       \<and> storedToken (populateHistory fetch regions items history0 etags0) r t
           = lookup2 etags0 r t"
  by (rule populateHistory_pair) (simp add: assms status_not_replaces)

theorem unchanged_keeps_series_and_token_witness:
  "lookup2 example_saved_etags 10000002 34 = Some \<lparr>etag = Some ''W/1a2b'', lastModified = None\<rparr>
   \<and> statusOf (example_fetch 1 10000002 34 (lookup2 example_saved_etags 10000002 34)) = Some 304
   \<and> statusOf (example_fetch 1 10000002 34 None) = Some 200
   \<and> storedSeries (populateHistory example_fetch [10000002, 10000043] [34, 35]
        example_saved_history example_saved_etags) 10000002 34
       = Some [day ''2025-01-01'' 90 4]
   \<and> storedToken (populateHistory example_fetch [10000002, 10000043] [34, 35]
        example_saved_history example_saved_etags) 10000002 34
       = Some \<lparr>etag = Some ''W/1a2b'', lastModified = None\<rparr>"
proof -
  have h: "\<forall>n. statusOf (example_fetch n 10000002 34
               (lookup2 example_saved_etags 10000002 34)) = Some 304"
    by (simp add: example_fetch_def example_saved_etags_def lookup2_def)
  from unchanged_keeps_series_and_token
    [where fetch = example_fetch and r = 10000002 and t = 34
      and ?etags0.0 = example_saved_etags, OF h,
      of "[10000002, 10000043]" "[34, 35]" example_saved_history]
  show ?thesis
    by (simp add: example_fetch_def example_saved_history_def example_saved_etags_def
        lookup2_def)
qed

text \<open>
  Claim C6, as the source has it. The claim asks that a pair answered with 404 has no
  entry in the updated snapshot even if it had one before. The source skips such a
  pair (\<^verbatim>\<open>continue\<close>) and deletes nothing: in the example, item 35 of region 10000002
  is answered with 404 and its saved series is still stored after the run.
\<close>

theorem absent_entry_retained_counterexample:
  "statusOf (example_fetch 2 10000002 35 (lookup2 example_saved_etags 10000002 35)) = Some 404
   \<and> lookup2 example_saved_history 10000002 35 = Some [day ''2025-01-01'' 7 3]
   \<and> storedSeries (populateHistory example_fetch [10000002, 10000043] [34, 35]
        example_saved_history example_saved_etags) 10000002 35
       = Some [day ''2025-01-01'' 7 3]"
proof -
  have "\<not> replaces (example_fetch n 10000002 35 c)" for n c
    by (simp add: example_fetch_def)
  then have "storedSeries (populateHistory example_fetch [10000002, 10000043] [34, 35]
        example_saved_history example_saved_etags) 10000002 35
      = lookup2 example_saved_history 10000002 35"
    using populateHistory_pair [where fetch = example_fetch and r = 10000002 and t = 35] by simp
  then show ?thesis
    by (simp add: example_fetch_def example_saved_history_def lookup2_def)
qed

text \<open>
  Claim C6, amended. If the source answers every request for a pair with 404, the run
  leaves the series stored for the pair and its cache token as the snapshot held them
  before the run: no entry is created where there was none, and an entry that existed
  is kept.
\<close>

theorem absent_keeps_series_and_token:
  assumes "\<forall>n c. statusOf (fetch n r t c) = Some 404"
  shows "storedSeries (populateHistory fetch regions items history0 etags0) r t
           = lookup2 history0 r t
       \<and> storedToken (populateHistory fetch regions items history0 etags0) r t
           = lookup2 etags0 r t"
  by (rule populateHistory_pair) (simp add: assms status_not_replaces)

theorem absent_keeps_series_and_token_witness:
  "statusOf (example_fetch 1 10000002 35 None) = Some 404
   \<and> storedSeries (populateHistory example_fetch [10000002, 10000043] [34, 35]
        Map.empty Map.empty) 10000002 35 = None
   \<and> storedToken (populateHistory example_fetch [10000002, 10000043] [34, 35]
        Map.empty Map.empty) 10000002 35 = None"
proof -
  have h: "\<forall>n c. statusOf (example_fetch n 10000002 35 c) = Some 404"
    by (simp add: example_fetch_def)
  from absent_keeps_series_and_token
    [where fetch = example_fetch and r = 10000002 and t = 35, OF h]
  show ?thesis
    by (simp add: example_fetch_def lookup2_def)
qed

section \<open>Properties of the series normalizer\<close>

lemma mset_insertBy: "mset (insertBy cmp x ys) = add_mset x (mset ys)"
  by (induction ys) simp_all

lemma mset_sortBy: "mset (sortBy cmp xs) = mset xs"
  by (induction xs) (simp_all add: sortBy_def mset_insertBy)

lemma set_insertBy: "set (insertBy cmp x ys) = insert x (set ys)"
  by (induction ys) auto

lemma sorted_insertBy:
  assumes "\<exists>a. timestamp x = Fin a" and "\<forall>y\<in>set ys. \<exists>b. timestamp y = Fin b"
    and "sorted_wrt (\<lambda>a b. jle (timestamp a) (timestamp b)) ys"
  shows "sorted_wrt (\<lambda>a b. jle (timestamp a) (timestamp b))
           (insertBy (\<lambda>a b. jsub (timestamp a) (timestamp b)) x ys)"
  using assms
proof (induction ys)
  case Nil
  show ?case by simp
next
  case (Cons y ys)
  then show ?case
    by (fastforce simp add: set_insertBy jgt_def jsub_def)
qed

lemma sorted_sortBy:
  "\<forall>p\<in>set ps. \<exists>a. timestamp p = Fin a \<Longrightarrow>
     sorted_wrt (\<lambda>a b. jle (timestamp a) (timestamp b))
       (sortBy (\<lambda>a b. jsub (timestamp a) (timestamp b)) ps)"
proof (induction ps)
  case Nil
  show ?case by (simp add: sortBy_def)
next
  case (Cons p ps)
  have "set (sortBy (\<lambda>a b. jsub (timestamp a) (timestamp b)) ps) = set ps"
    using mset_sortBy [of "\<lambda>a b. jsub (timestamp a) (timestamp b)" ps]
    by (metis set_mset_mset)
  with Cons show ?case
    using sorted_insertBy [of p "sortBy (\<lambda>a b. jsub (timestamp a) (timestamp b)) ps"]
    by (simp add: sortBy_def)
qed

lemma parseInt_cases: "parseInt k = NaN \<or> (\<exists>a. parseInt k = Fin a)"
  by (simp add: parseInt_def Let_def)

lemma parseInt_example_keys:
  "parseInt ''1700086400000'' = Fin 1700086400000"
  "parseInt ''1700000000000'' = Fin 1700000000000"
  "parseInt ''n/a'' = NaN"
  by (simp_all add: parseInt_def isStrWhiteSpace_def digitValue_def Let_def)

text \<open>
  Claim C9, as the source has it. The claim asks that an entry whose date key cannot be
  parsed is dropped. \<open>convertToArray\<close> has no filter: the key \<^verbatim>\<open>n/a\<close> parses to \<open>NaN\<close>
  and its entry is in the output, with that timestamp.
\<close>

theorem convertToArray_keeps_malformed_counterexample:
  "parseInt ''n/a'' = NaN
   \<and> convertToArray [(''n/a'', 5)] = [\<lparr>timestamp = NaN, price = 5\<rparr>]"
  by (simp add: convertToArray_def sortBy_def pricePointOf_def parseInt_example_keys)

text \<open>
  Claim C9, amended. \<open>convertToArray\<close> is total and drops nothing: its output holds
  exactly the points \<open>pricePointOf\<close> makes of the input entries, one per entry, each with
  the timestamp \<open>parseInt\<close> gives its key (\<open>NaN\<close> for a key without leading digits) and
  its price unchanged. When every key parses to a number, the output is sorted
  ascending by timestamp.
\<close>

theorem convertToArray_keeps_every_entry:
  "mset (convertToArray xs) = mset (map pricePointOf xs)
   \<and> length (convertToArray xs) = length xs
   \<and> ((\<forall>kv\<in>set xs. parseInt (fst kv) \<noteq> NaN) \<longrightarrow>
        sorted_wrt (\<lambda>a b. jle (timestamp a) (timestamp b)) (convertToArray xs))"
proof -
  have m: "mset (convertToArray xs) = mset (map pricePointOf xs)"
    by (simp add: convertToArray_def mset_sortBy)
  have "size (mset (convertToArray xs)) = size (mset (map pricePointOf xs))"
    by (simp only: m)
  then have l: "length (convertToArray xs) = length xs"
    by simp
  have s: "sorted_wrt (\<lambda>a b. jle (timestamp a) (timestamp b)) (convertToArray xs)"
    if "\<forall>kv\<in>set xs. parseInt (fst kv) \<noteq> NaN"
    unfolding convertToArray_def
  proof (rule sorted_sortBy)
    show "\<forall>p\<in>set (map pricePointOf xs). \<exists>a. timestamp p = Fin a"
      using that parseInt_cases by (auto simp add: pricePointOf_def)
  qed
  show ?thesis
    using m l s by blast
qed

theorem convertToArray_keeps_every_entry_witness:
  "parseInt ''1700086400000'' \<noteq> NaN \<and> parseInt ''1700000000000'' \<noteq> NaN
   \<and> mset (convertToArray example_prices) = mset (map pricePointOf example_prices)
   \<and> length (convertToArray example_prices) = 2
   \<and> sorted_wrt (\<lambda>a b. jle (timestamp a) (timestamp b)) (convertToArray example_prices)
   \<and> convertToArray example_prices
       = [\<lparr>timestamp = Fin 1700000000000, price = 100\<rparr>,
          \<lparr>timestamp = Fin 1700086400000, price = 120\<rparr>]"
proof -
  have k: "\<forall>kv\<in>set example_prices. parseInt (fst kv) \<noteq> NaN"
    by (simp add: example_prices_def parseInt_example_keys)
  have v: "convertToArray example_prices
       = [\<lparr>timestamp = Fin 1700000000000, price = 100\<rparr>,
          \<lparr>timestamp = Fin 1700086400000, price = 120\<rparr>]"
    by (simp add: example_prices_def convertToArray_def sortBy_def pricePointOf_def
        parseInt_example_keys jsub_def jgt_def)
  have n: "length example_prices = 2"
    by (simp add: example_prices_def)
  from convertToArray_keeps_every_entry [of example_prices] k n v
  show ?thesis
    by (simp add: parseInt_example_keys)
qed

section \<open>Properties of the statistics\<close>

lemma foldl_average_replicate:
  "foldl (\<lambda>sum day. jadd sum (average day)) (Fin a) (replicate n (day d v w))
     = Fin (a + real n * v)"
  by (induction n arbitrary: a) (simp_all add: algebra_simps day_def)

text \<open>
  Claim C3. The claim asks that a metric whose divisor is exactly 0 is exactly 0. The
  three functions divide without a guard. The aggregation gives the first day of the
  example, which has no volume, the average 0; \<open>calculatePriceChange\<close> then divides by
  that first price and returns \<open>Infinity\<close>. A series of mean 0 gives \<open>calculateVolatility\<close>
  the value \<open>NaN\<close>, and thirty days at 0 followed by thirty days at 4 give
  \<open>calculateMomentum\<close> the value \<open>Infinity\<close>.
\<close>

theorem statistics_divide_by_zero_unguarded:
  "map_of (aggregateRegionData example_history) 34 = Some example_merged
   \<and> average (example_merged ! 0) = Fin 0
   \<and> calculatePriceChange example_merged = PInf
   \<and> calculateVolatility [day ''2025-01-01'' 0 0, day ''2025-01-02'' 0 0] = NaN
   \<and> calculateMomentum
        (replicate 30 (day ''2025-01-01'' 0 0) @ replicate 30 (day ''2025-02-01'' 4 2)) = PInf"
proof -
  have "average (example_merged ! 0) = Fin 0"
    by (simp add: example_merged_def)
  moreover have "calculatePriceChange example_merged = PInf"
    by (simp add: example_merged_def calculatePriceChange_def jsub_def signed_inf_def)
  moreover have "calculateVolatility [day ''2025-01-01'' 0 0, day ''2025-01-02'' 0 0] = NaN"
    by (simp add: calculateVolatility_def day_def signed_inf_def jsub_def)
  moreover have "calculateMomentum
        (replicate 30 (day ''2025-01-01'' 0 0) @ replicate 30 (day ''2025-02-01'' 4 2)) = PInf"
    by (simp add: calculateMomentum_def Let_def foldl_average_replicate jsub_def
        signed_inf_def)
  ultimately show ?thesis
    using example_aggregate by simp
qed

lemma sort_week_series: "sort_key date week_series = week_series"
  by (simp add: week_series_def day_def less_eq_char_def less_char_def)

text \<open>
  Claim C8. The claim asks for the change against the price exactly 7 points before the
  last one. On the eight days of the example the last price is 300, the price 7 points
  earlier is 100 (a change of 200 percent) and the price 6 points earlier is 200;
  \<open>analyzeItem\<close> reads \<^verbatim>\<open>history[history.length - 7]\<close>, the point 6 places before the
  last, and reports 50 percent.
\<close>

theorem seven_day_change_reads_six_points_back:
  "length week_series = 8
   \<and> average (week_series ! (length week_series - 1)) = Fin 300
   \<and> average (week_series ! (length week_series - 1 - 7)) = Fin 100
   \<and> average (week_series ! (length week_series - 1 - 6)) = Fin 200
   \<and> map_option res_priceChange7d
        (analyzeItem week_series \<lparr>item_id = 34, item_name = ''Tritanium''\<rparr>)
       = Some (Fin 50)"
  by (simp add: analyzeItem_def sort_week_series Let_def)
    (simp add: week_series_def day_def jgt_def jsub_def)

end
